theory Spec2Isabelle
  imports Complex_Main "HOL-Library.Word"
begin

unbundle bit_operations_syntax

section \<open>JavaScript values used by the library\<close>

text \<open>
  A JavaScript string is a sequence of UTF-16 code units; \<open>length\<close> counts code units and
  a regular expression without the \<open>u\<close> flag tests code units. A \<open>Uint8Array\<close> is a
  sequence of bytes.
\<close>

type_synonym code_unit = "16 word"
type_synonym jsstring = "code_unit list"
type_synonym byte = "8 word"

text \<open>An ASCII string literal of the source, as a JavaScript string.\<close>

definition js :: "string \<Rightarrow> jsstring" where
  "js s = map of_char s"

text \<open>
  What a \<open>throw\<close> carries. Every exception of the library and of the browser is an
  \<open>Error\<close> object (\<open>DOMException\<close> and \<open>TypeError\<close> included) with a name and a message;
  \<open>NonError\<close> stands for any other thrown value, which only the last line of a
  \<open>catch\<close> block can tell apart.
\<close>

datatype thrown = ErrorObject string jsstring | NonError

text \<open>\<open>new Error(message)\<close>.\<close>

definition new_Error :: "jsstring \<Rightarrow> thrown" where
  "new_Error msg = ErrorObject ''Error'' msg"


section \<open>String operations of the platform\<close>

subsection \<open>\<open>String.prototype.trim\<close> and \<open>String.prototype.includes\<close>\<close>

text \<open>
  The code units \<open>trim\<close> removes: the ECMAScript \<open>WhiteSpace\<close> and \<open>LineTerminator\<close>
  code points, all of which are single code units.
\<close>

definition is_js_whitespace :: "code_unit \<Rightarrow> bool" where
  "is_js_whitespace c =
    (c = 0x0009 \<or> c = 0x000A \<or> c = 0x000B \<or> c = 0x000C \<or> c = 0x000D \<or> c = 0x0020
     \<or> c = 0x00A0 \<or> c = 0x1680 \<or> (0x2000 \<le> c \<and> c \<le> 0x200A) \<or> c = 0x2028
     \<or> c = 0x2029 \<or> c = 0x202F \<or> c = 0x205F \<or> c = 0x3000 \<or> c = 0xFEFF)"

definition trim :: "jsstring \<Rightarrow> jsstring" where
  "trim s = rev (dropWhile is_js_whitespace (rev (dropWhile is_js_whitespace s)))"

text \<open>\<open>s.includes(t)\<close>: \<open>t\<close> occurs in \<open>s\<close> as a contiguous run.\<close>

fun includes_str :: "jsstring \<Rightarrow> jsstring \<Rightarrow> bool" where
  "includes_str [] t = (t = [])"
| "includes_str (c # s) t = (take (length t) (c # s) = t \<or> includes_str s t)"

subsection \<open>Base64: \<open>btoa\<close> and \<open>atob\<close>\<close>

text \<open>
  Base64 regroups octets into sextets, three octets to four sextets; a last group of one
  or two octets gives two or three sextets, the unused low bits being zero.
\<close>

fun sextets :: "nat list \<Rightarrow> nat list" where
  "sextets (a # b # c # rest) =
     [a div 4, (a mod 4) * 16 + b div 16, (b mod 16) * 4 + c div 64, c mod 64] @ sextets rest"
| "sextets [a, b] = [a div 4, (a mod 4) * 16 + b div 16, (b mod 16) * 4]"
| "sextets [a] = [a div 4, (a mod 4) * 16]"
| "sextets [] = []"

text \<open>
  The way back: four sextets give three octets; a last group of three or two sextets gives
  two octets or one, the surplus low bits being discarded.
\<close>

fun octets :: "nat list \<Rightarrow> nat list" where
  "octets (a # b # c # d # rest) =
     [a * 4 + b div 16, (b mod 16) * 16 + c div 4, (c mod 4) * 64 + d] @ octets rest"
| "octets [a, b, c] = [a * 4 + b div 16, (b mod 16) * 16 + c div 4]"
| "octets [a, b] = [a * 4 + b div 16]"
| "octets [a] = []"
| "octets [] = []"

definition b64_alphabet :: string where
  "b64_alphabet = ''ABCDEFGHIJKLMNOPQRSTUVWXYZabcdefghijklmnopqrstuvwxyz0123456789+/''"

definition b64_char :: "nat \<Rightarrow> code_unit" where
  "b64_char n = of_char (b64_alphabet ! n)"

definition b64_value :: "code_unit \<Rightarrow> nat option" where
  "b64_value c =
    (if 0x41 \<le> c \<and> c \<le> 0x5A then Some (unat c - 0x41)
     else if 0x61 \<le> c \<and> c \<le> 0x7A then Some (unat c - 0x61 + 26)
     else if 0x30 \<le> c \<and> c \<le> 0x39 then Some (unat c - 0x30 + 52)
     else if c = 0x2B then Some 62
     else if c = 0x2F then Some 63
     else None)"

text \<open>The padding that completes the output to a multiple of four characters.\<close>

definition b64_padding :: "nat \<Rightarrow> jsstring" where
  "b64_padding n = replicate ((3 - n mod 3) mod 3) 0x3D"

definition base64_encode :: "nat list \<Rightarrow> jsstring" where
  "base64_encode bs = map b64_char (sextets bs) @ b64_padding (length bs)"

text \<open>
  \<open>btoa(s)\<close> throws \<open>InvalidCharacterError\<close> (here \<open>None\<close>) when a code unit of \<open>s\<close> is
  above \<open>0xFF\<close>, and otherwise encodes the code units as octets.
\<close>

definition btoa :: "jsstring \<Rightarrow> jsstring option" where
  "btoa s = (if list_all (\<lambda>c. c \<le> 0xFF) s then Some (base64_encode (map unat s)) else None)"

text \<open>
  \<open>atob(s)\<close> is the forgiving Base64 decoder of the HTML standard: ASCII whitespace is
  removed; if the length is then a multiple of four, one or two final \<open>=\<close> are removed; a
  length of one modulo four or a character outside the alphabet is an
  \<open>InvalidCharacterError\<close> (here \<open>None\<close>).
\<close>

definition is_ascii_whitespace :: "code_unit \<Rightarrow> bool" where
  "is_ascii_whitespace c = (c = 0x09 \<or> c = 0x0A \<or> c = 0x0C \<or> c = 0x0D \<or> c = 0x20)"

definition strip_padding :: "jsstring \<Rightarrow> jsstring" where
  "strip_padding d =
    (if length d mod 4 = 0 \<and> d \<noteq> [] \<and> last d = 0x3D then
       (if butlast d \<noteq> [] \<and> last (butlast d) = 0x3D then butlast (butlast d) else butlast d)
     else d)"

fun those_values :: "code_unit list \<Rightarrow> nat list option" where
  "those_values [] = Some []"
| "those_values (c # cs) =
    (case b64_value c of
       None \<Rightarrow> None
     | Some v \<Rightarrow> (case those_values cs of None \<Rightarrow> None | Some vs \<Rightarrow> Some (v # vs)))"

definition atob :: "jsstring \<Rightarrow> jsstring option" where
  "atob s =
    (let d = strip_padding (filter (\<lambda>c. \<not> is_ascii_whitespace c) s)
     in if length d mod 4 = 1 then None
        else (case those_values d of
                None \<Rightarrow> None
              | Some vs \<Rightarrow> Some (map of_nat (octets vs))))"


subsection \<open>UTF-8: \<open>TextEncoder\<close> and \<open>TextDecoder\<close>\<close>

definition is_lead_surrogate :: "code_unit \<Rightarrow> bool" where
  "is_lead_surrogate c = (0xD800 \<le> c \<and> c \<le> 0xDBFF)"

definition is_trail_surrogate :: "code_unit \<Rightarrow> bool" where
  "is_trail_surrogate c = (0xDC00 \<le> c \<and> c \<le> 0xDFFF)"

text \<open>
  The scalar values of a string: a surrogate pair is one scalar value, an unpaired
  surrogate becomes U+FFFD (the conversion \<open>TextEncoder.encode\<close> applies to its argument).
\<close>

fun to_scalars :: "jsstring \<Rightarrow> nat list" where
  "to_scalars [] = []"
| "to_scalars [c] = [if is_lead_surrogate c \<or> is_trail_surrogate c then 0xFFFD else unat c]"
| "to_scalars (c # d # rest) =
    (if is_lead_surrogate c \<and> is_trail_surrogate d then
       (0x10000 + (unat c - 0xD800) * 0x400 + (unat d - 0xDC00)) # to_scalars rest
     else (if is_lead_surrogate c \<or> is_trail_surrogate c then 0xFFFD else unat c)
          # to_scalars (d # rest))"

definition utf8_encode_scalar :: "nat \<Rightarrow> nat list" where
  "utf8_encode_scalar cp =
    (if cp < 0x80 then [cp]
     else if cp < 0x800 then [0xC0 + cp div 64, 0x80 + cp mod 64]
     else if cp < 0x10000 then [0xE0 + cp div 4096, 0x80 + (cp div 64) mod 64, 0x80 + cp mod 64]
     else [0xF0 + cp div 262144, 0x80 + (cp div 4096) mod 64, 0x80 + (cp div 64) mod 64,
           0x80 + cp mod 64])"

definition TextEncoder_encode :: "jsstring \<Rightarrow> byte list" where
  "TextEncoder_encode s = map of_nat (concat (map utf8_encode_scalar (to_scalars s)))"

text \<open>
  The UTF-8 decoder of the Encoding standard, in replacement mode: a byte that cannot
  start or continue a sequence yields U+FFFD, and a byte that fails to continue a sequence
  is read again as the start of the next one.
\<close>

definition is_continuation :: "nat \<Rightarrow> bool" where
  "is_continuation b = (0x80 \<le> b \<and> b \<le> 0xBF)"

fun utf8_decode :: "nat list \<Rightarrow> nat list" where
  "utf8_decode [] = []"
| "utf8_decode (b # bs) =
    (if b \<le> 0x7F then b # utf8_decode bs
     else if 0xC2 \<le> b \<and> b \<le> 0xDF then
       (case bs of
          [] \<Rightarrow> [0xFFFD]
        | b1 # r1 \<Rightarrow>
            if is_continuation b1 then ((b - 0xC0) * 64 + (b1 - 0x80)) # utf8_decode r1
            else 0xFFFD # utf8_decode bs)
     else if 0xE0 \<le> b \<and> b \<le> 0xEF then
       (case bs of
          [] \<Rightarrow> [0xFFFD]
        | b1 # r1 \<Rightarrow>
            if (if b = 0xE0 then 0xA0 else 0x80) \<le> b1 \<and> b1 \<le> (if b = 0xED then 0x9F else 0xBF) then
              (case r1 of
                 [] \<Rightarrow> [0xFFFD]
               | b2 # r2 \<Rightarrow>
                   if is_continuation b2 then
                     ((b - 0xE0) * 4096 + (b1 - 0x80) * 64 + (b2 - 0x80)) # utf8_decode r2
                   else 0xFFFD # utf8_decode r1)
            else 0xFFFD # utf8_decode bs)
     else if 0xF0 \<le> b \<and> b \<le> 0xF4 then
       (case bs of
          [] \<Rightarrow> [0xFFFD]
        | b1 # r1 \<Rightarrow>
            if (if b = 0xF0 then 0x90 else 0x80) \<le> b1 \<and> b1 \<le> (if b = 0xF4 then 0x8F else 0xBF) then
              (case r1 of
                 [] \<Rightarrow> [0xFFFD]
               | b2 # r2 \<Rightarrow>
                   if is_continuation b2 then
                     (case r2 of
                        [] \<Rightarrow> [0xFFFD]
                      | b3 # r3 \<Rightarrow>
                          if is_continuation b3 then
                            ((b - 0xF0) * 262144 + (b1 - 0x80) * 4096 + (b2 - 0x80) * 64
                               + (b3 - 0x80)) # utf8_decode r3
                          else 0xFFFD # utf8_decode r2)
                   else 0xFFFD # utf8_decode r1)
            else 0xFFFD # utf8_decode bs)
     else 0xFFFD # utf8_decode bs)"

text \<open>A scalar value as UTF-16 code units.\<close>

definition utf16_encode_scalar :: "nat \<Rightarrow> jsstring" where
  "utf16_encode_scalar cp =
    (if cp < 0x10000 then [of_nat cp]
     else [of_nat (0xD800 + (cp - 0x10000) div 0x400), of_nat (0xDC00 + (cp - 0x10000) mod 0x400)])"

text \<open>
  \<open>new TextDecoder().decode(bytes)\<close>: the default decoder does not keep a byte order mark,
  so a leading U+FEFF is dropped.
\<close>

fun strip_bom :: "nat list \<Rightarrow> nat list" where
  "strip_bom [] = []"
| "strip_bom (cp # cps) = (if cp = 0xFEFF then cps else cp # cps)"

definition TextDecoder_decode :: "byte list \<Rightarrow> jsstring" where
  "TextDecoder_decode bytes =
    concat (map utf16_encode_scalar (strip_bom (utf8_decode (map unat bytes))))"


subsection \<open>Untyped values: the results of \<open>JSON.parse\<close>\<close>

text \<open>
  Numbers are modelled by integers (the iteration count is one); an object is the list of its
  own properties, each key once.
\<close>

datatype jsval =
    JUndefined
  | JNull
  | JBool bool
  | JNum int
  | JStr jsstring
  | JArr "jsval list"
  | JObj "(jsstring \<times> jsval) list"

text \<open>\<open>!v\<close> is \<open>\<not> truthy v\<close>.\<close>

fun truthy :: "jsval \<Rightarrow> bool" where
  "truthy JUndefined = False"
| "truthy JNull = False"
| "truthy (JBool b) = b"
| "truthy (JNum n) = (n \<noteq> 0)"
| "truthy (JStr s) = (s \<noteq> [])"
| "truthy (JArr xs) = True"
| "truthy (JObj kvs) = True"

text \<open>
  \<open>v.k\<close> for one of the six field names, none of which is a property of a prototype: an
  object yields its own property or \<open>undefined\<close>, every other value but \<open>null\<close> and
  \<open>undefined\<close> yields \<open>undefined\<close>. Reading a property of \<open>null\<close> or \<open>undefined\<close>
  throws a \<open>TypeError\<close>; callers test \<open>nullish\<close> first.
\<close>

definition nullish :: "jsval \<Rightarrow> bool" where
  "nullish v = (v = JUndefined \<or> v = JNull)"

fun get_prop :: "jsval \<Rightarrow> jsstring \<Rightarrow> jsval" where
  "get_prop (JObj kvs) k = (case map_of kvs k of None \<Rightarrow> JUndefined | Some v \<Rightarrow> v)"
| "get_prop JUndefined k = JUndefined"
| "get_prop JNull k = JUndefined"
| "get_prop (JBool b) k = JUndefined"
| "get_prop (JNum n) k = JUndefined"
| "get_prop (JStr s) k = JUndefined"
| "get_prop (JArr xs) k = JUndefined"

text \<open>Decimal digits of a number, for template literals.\<close>

fun nat_digits :: "nat \<Rightarrow> jsstring" where
  "nat_digits n =
    (if n < 10 then [0x30 + of_nat n] else nat_digits (n div 10) @ [0x30 + of_nat (n mod 10)])"

declare nat_digits.simps [simp del]

definition int_to_string :: "int \<Rightarrow> jsstring" where
  "int_to_string n = (if n < 0 then 0x2D # nat_digits (nat (- n)) else nat_digits (nat n))"

fun join_with :: "jsstring \<Rightarrow> jsstring list \<Rightarrow> jsstring" where
  "join_with sep [] = []"
| "join_with sep [s] = s"
| "join_with sep (s # t # ts) = s @ sep @ join_with sep (t # ts)"

text \<open>
  \<open>`${v}`\<close>, the string a template literal inserts: a string is itself; an array is its
  elements joined by commas, \<open>null\<close> and \<open>undefined\<close> elements being empty; an object
  is \<open>[object Object]\<close>.
\<close>

fun ToString :: "jsval \<Rightarrow> jsstring" where
  "ToString JUndefined = js ''undefined''"
| "ToString JNull = js ''null''"
| "ToString (JBool b) = (if b then js ''true'' else js ''false'')"
| "ToString (JNum n) = int_to_string n"
| "ToString (JStr s) = s"
| "ToString (JArr xs) =
     join_with (js '','')
       (map (\<lambda>x. if x = JUndefined \<or> x = JNull then [] else ToString x) xs)"
| "ToString (JObj kvs) = js ''[object Object]''"


subsection \<open>\<open>JSON.stringify\<close>\<close>

definition hex_digit :: "nat \<Rightarrow> code_unit" where
  "hex_digit n = (if n < 10 then 0x30 + of_nat n else 0x61 + of_nat (n - 10))"

text \<open>\<open>\u\<close> followed by four lowercase hexadecimal digits.\<close>

definition unicode_escape :: "code_unit \<Rightarrow> jsstring" where
  "unicode_escape c =
    [0x5C, 0x75, hex_digit (unat c div 4096), hex_digit (unat c div 256 mod 16),
     hex_digit (unat c div 16 mod 16), hex_digit (unat c mod 16)]"

text \<open>
  The characters between the quotes of a serialised string: the short escapes, \<open>\u\<close>
  escapes for the other control characters and for unpaired surrogates, everything else
  as it is.
\<close>

fun quote_chars :: "jsstring \<Rightarrow> jsstring" where
  "quote_chars [] = []"
| "quote_chars (c # rest) =
    (if c = 0x08 then [0x5C, 0x62] @ quote_chars rest
     else if c = 0x09 then [0x5C, 0x74] @ quote_chars rest
     else if c = 0x0A then [0x5C, 0x6E] @ quote_chars rest
     else if c = 0x0C then [0x5C, 0x66] @ quote_chars rest
     else if c = 0x0D then [0x5C, 0x72] @ quote_chars rest
     else if c = 0x22 then [0x5C, 0x22] @ quote_chars rest
     else if c = 0x5C then [0x5C, 0x5C] @ quote_chars rest
     else if c < 0x20 then unicode_escape c @ quote_chars rest
     else if is_lead_surrogate c then
       (case rest of
          [] \<Rightarrow> unicode_escape c
        | d # rest' \<Rightarrow>
            if is_trail_surrogate d then c # d # quote_chars rest'
            else unicode_escape c @ quote_chars rest)
     else if is_trail_surrogate c then unicode_escape c @ quote_chars rest
     else c # quote_chars rest)"

definition quote_json :: "jsstring \<Rightarrow> jsstring" where
  "quote_json s = [0x22] @ quote_chars s @ [0x22]"

text \<open>
  The serialisation of a value inside an array or an object, without indentation: an
  \<open>undefined\<close> array element is \<open>null\<close>, an \<open>undefined\<close> property is left out.
\<close>

fun JSON_serialize :: "jsval \<Rightarrow> jsstring" where
  "JSON_serialize JUndefined = js ''null''"
| "JSON_serialize JNull = js ''null''"
| "JSON_serialize (JBool b) = (if b then js ''true'' else js ''false'')"
| "JSON_serialize (JNum n) = int_to_string n"
| "JSON_serialize (JStr s) = quote_json s"
| "JSON_serialize (JArr xs) = js ''['' @ join_with (js '','') (map JSON_serialize xs) @ js '']''"
| "JSON_serialize (JObj kvs) =
     js ''{''
     @ join_with (js '','')
         (map (\<lambda>(k, v). quote_json k @ js '':'' @ JSON_serialize v)
            (filter (\<lambda>(k, v). v \<noteq> JUndefined) kvs))
     @ js ''}''"


section \<open>Passphrase utilities: \<open>calculatePasswordStrength\<close> (src/lib/crypto.ts)\<close>

text \<open>The four regular expressions tested against the password.\<close>

definition is_lower :: "code_unit \<Rightarrow> bool" where
  "is_lower c = (0x61 \<le> c \<and> c \<le> 0x7A)"

definition is_upper :: "code_unit \<Rightarrow> bool" where
  "is_upper c = (0x41 \<le> c \<and> c \<le> 0x5A)"

definition is_digit :: "code_unit \<Rightarrow> bool" where
  "is_digit c = (0x30 \<le> c \<and> c \<le> 0x39)"

definition is_other :: "code_unit \<Rightarrow> bool" where
  "is_other c = (\<not> (is_lower c \<or> is_upper c \<or> is_digit c))"

text \<open>\<open>/re/.test(password)\<close> for a one-character class: some code unit is in the class.\<close>

definition regex_test :: "(code_unit \<Rightarrow> bool) \<Rightarrow> jsstring \<Rightarrow> bool" where
  "regex_test cls s = list_ex cls s"

text \<open>
  The four \<open>charSetSize += k\<close> statements, in the order of the source.
\<close>

definition charSetSize :: "jsstring \<Rightarrow> nat" where
  "charSetSize password =
    (let c0 = 0;
         c1 = (if regex_test is_lower password then c0 + 26 else c0);
         c2 = (if regex_test is_upper password then c1 + 26 else c1);
         c3 = (if regex_test is_digit password then c2 + 10 else c2);
         c4 = (if regex_test is_other password then c3 + 32 else c3)
     in c4)"

text \<open>
  \<open>password.length * Math.log2(charSetSize || 1)\<close>. The double-precision product is
  modelled by the real number it approximates.
\<close>

definition entropy_bits :: "jsstring \<Rightarrow> real" where
  "entropy_bits password =
    real (length password) *
      log 2 (real (if charSetSize password = 0 then 1 else charSetSize password))"

record strength =
  score :: nat
  entropy :: int
  feedback :: jsstring

text \<open>\<open>Math.round\<close> rounds to the nearest integer, halves upwards.\<close>

definition Math_round :: "real \<Rightarrow> int" where
  "Math_round x = \<lfloor>x + 1 / 2\<rfloor>"

definition calculatePasswordStrength :: "jsstring \<Rightarrow> strength" where
  "calculatePasswordStrength password =
    (if password = [] then
       \<lparr>score = 0, entropy = 0, feedback = js ''Password required''\<rparr>
     else
       let e = entropy_bits password in
       if e < 28 then
         \<lparr>score = 0, entropy = Math_round e, feedback = js ''Very weak - use longer passphrase''\<rparr>
       else if e < 36 then
         \<lparr>score = 1, entropy = Math_round e, feedback = js ''Weak - add more characters''\<rparr>
       else if e < 60 then
         \<lparr>score = 2, entropy = Math_round e, feedback = js ''Fair - consider more complexity''\<rparr>
       else if e < 128 then
         \<lparr>score = 3, entropy = Math_round e, feedback = js ''Strong - good passphrase''\<rparr>
       else
         \<lparr>score = 4, entropy = Math_round e, feedback = js ''Very strong - excellent''\<rparr>)"

subsection \<open>The strength estimate in the words of the specification\<close>





text \<open>The character classes a password can be drawn from, and the size each contributes.\<close>

datatype char_class = Lowercase | Uppercase | Digits | Symbols

fun in_class :: "char_class \<Rightarrow> code_unit \<Rightarrow> bool" where
  "in_class Lowercase c = is_lower c"
| "in_class Uppercase c = is_upper c"
| "in_class Digits c = is_digit c"
| "in_class Symbols c = is_other c"

fun class_size :: "char_class \<Rightarrow> nat" where
  "class_size Lowercase = 26"
| "class_size Uppercase = 26"
| "class_size Digits = 10"
| "class_size Symbols = 32"

section \<open>The envelope: \<open>EncryptionPayload\<close> (src/lib/crypto.ts)\<close>

record EncryptionPayload =
  alg :: jsstring
  kdf :: jsstring
  salt :: jsstring
  iv :: jsstring
  iterations :: int
  ct :: jsstring


section \<open>The browser the library runs in\<close>

text \<open>
  What the library takes from its platform and this development does not define: whether
  \<open>window.crypto.subtle\<close> exists, the random bytes, PBKDF2 key derivation
  (\<open>importKey\<close> followed by \<open>deriveKey\<close>), the AES-GCM operations of
  \<open>crypto.subtle\<close> (each given the algorithm name, the key, the iv and the data),
  \<open>JSON.parse\<close> (\<open>None\<close> for a \<open>SyntaxError\<close>), and the exceptions the platform throws for
  a string that is not Base64 and for a property read on \<open>null\<close>. \<open>'k\<close> is the type of
  \<open>CryptoKey\<close>.
\<close>

record 'k platform =
  crypto_supported :: bool
  random_source :: "nat \<Rightarrow> byte"
  pbkdf2 :: "byte list \<Rightarrow> byte list \<Rightarrow> int \<Rightarrow> thrown + 'k"
  subtle_encrypt :: "jsstring \<Rightarrow> 'k \<Rightarrow> byte list \<Rightarrow> byte list \<Rightarrow> thrown + byte list"
  subtle_decrypt :: "jsstring \<Rightarrow> 'k \<Rightarrow> byte list \<Rightarrow> byte list \<Rightarrow> thrown + byte list"
  JSON_parse :: "jsstring \<Rightarrow> jsval option"
  invalid_character_error :: thrown
  null_property_error :: thrown

section \<open>The crypto library (src/lib/crypto.ts)\<close>

record EncryptionOptions =
  opt_iterations :: "int option"
  opt_algorithm :: "unit option"

text \<open>\<open>plaintext: string | ArrayBuffer\<close>.\<close>

datatype plaintext = Text jsstring | Buffer "byte list"

definition isCryptoSupported :: "'k platform \<Rightarrow> bool" where
  "isCryptoSupported pf = crypto_supported pf"

text \<open>
  \<open>crypto.getRandomValues\<close> on a fresh array of \<open>n\<close> bytes reads the next \<open>n\<close> bytes of
  the random source; the position in the source is the state.
\<close>

definition getRandomValues :: "'k platform \<Rightarrow> nat \<Rightarrow> nat \<Rightarrow> byte list \<times> nat" where
  "getRandomValues pf n pos = (map (random_source pf) [pos..<pos + n], pos + n)"

definition generateSalt :: "'k platform \<Rightarrow> nat \<Rightarrow> nat \<Rightarrow> byte list \<times> nat" where
  "generateSalt pf len pos = getRandomValues pf len pos"

definition generateIV :: "'k platform \<Rightarrow> nat \<Rightarrow> byte list \<times> nat" where
  "generateIV pf pos = getRandomValues pf 12 pos"

text \<open>
  \<open>arrayBufferToBase64\<close>: the loop appends \<open>String.fromCharCode(bytes[i])\<close> for each
  byte, then \<open>btoa\<close> encodes the string.
\<close>

definition arrayBufferToBase64 :: "'k platform \<Rightarrow> byte list \<Rightarrow> thrown + jsstring" where
  "arrayBufferToBase64 pf bytes =
    (let binary = map ucast bytes
     in (case btoa binary of
           None \<Rightarrow> Inl (invalid_character_error pf)
         | Some b64 \<Rightarrow> Inr b64))"

text \<open>
  \<open>base64ToArrayBuffer\<close>: \<open>atob\<close>, then the loop stores \<open>binary.charCodeAt(i)\<close> into a
  \<open>Uint8Array\<close>.
\<close>

definition base64ToArrayBuffer :: "'k platform \<Rightarrow> jsstring \<Rightarrow> thrown + byte list" where
  "base64ToArrayBuffer pf base64 =
    (case atob base64 of
       None \<Rightarrow> Inl (invalid_character_error pf)
     | Some binary \<Rightarrow> Inr (map ucast binary))"

definition deriveKey :: "'k platform \<Rightarrow> jsstring \<Rightarrow> byte list \<Rightarrow> int \<Rightarrow> thrown + 'k" where
  "deriveKey pf passphrase saltBytes iters =
    (let passphraseBytes = TextEncoder_encode passphrase
     in pbkdf2 pf passphraseBytes saltBytes iters)"

text \<open>\<open>!passphrase || passphrase.trim().length === 0\<close>.\<close>

definition passphrase_empty :: "jsstring \<Rightarrow> bool" where
  "passphrase_empty passphrase = (passphrase = [] \<or> length (trim passphrase) = 0)"

text \<open>
  \<open>typeof plaintext === 'string' ? new TextEncoder().encode(plaintext)
  : new Uint8Array(plaintext)\<close>.
\<close>

fun plaintext_bytes :: "plaintext \<Rightarrow> byte list" where
  "plaintext_bytes (Text s) = TextEncoder_encode s"
| "plaintext_bytes (Buffer b) = b"

text \<open>
  \<open>encrypt\<close> returns the envelope or the exception thrown, and the position of the random
  source after the call.
\<close>

definition encrypt ::
  "'k platform \<Rightarrow> nat \<Rightarrow> plaintext \<Rightarrow> jsstring \<Rightarrow> EncryptionOptions
     \<Rightarrow> (thrown + EncryptionPayload) \<times> nat" where
  "encrypt pf pos plain passphrase options =
    (if \<not> isCryptoSupported pf then
       (Inl (new_Error (js ''Web Crypto API is not supported in this browser'')), pos)
     else if passphrase_empty passphrase then
       (Inl (new_Error (js ''Passphrase cannot be empty'')), pos)
     else
       let iters = (case opt_iterations options of
                      None \<Rightarrow> 200000
                    | Some n \<Rightarrow> if n = 0 then 200000 else n);
           algorithm = (case opt_algorithm options of
                          None \<Rightarrow> js ''AES-GCM''
                        | Some u \<Rightarrow> js ''AES-GCM'');
           (saltBytes, pos1) = generateSalt pf 16 pos;
           (ivBytes, pos2) = generateIV pf pos1
       in (case deriveKey pf passphrase saltBytes iters of
             Inl e \<Rightarrow> (Inl e, pos2)
           | Inr key \<Rightarrow>
               (let plaintextBytes = plaintext_bytes plain
                in (case subtle_encrypt pf algorithm key ivBytes plaintextBytes of
                      Inl e \<Rightarrow> (Inl e, pos2)
                    | Inr ciphertextBuffer \<Rightarrow>
                        (case arrayBufferToBase64 pf saltBytes of
                           Inl e \<Rightarrow> (Inl e, pos2)
                         | Inr salt64 \<Rightarrow>
                             (case arrayBufferToBase64 pf ivBytes of
                                Inl e \<Rightarrow> (Inl e, pos2)
                              | Inr iv64 \<Rightarrow>
                                  (case arrayBufferToBase64 pf ciphertextBuffer of
                                     Inl e \<Rightarrow> (Inl e, pos2)
                                   | Inr ct64 \<Rightarrow>
                                       (Inr \<lparr>alg = algorithm, kdf = js ''PBKDF2'',
                                             salt = salt64, iv = iv64, iterations = iters,
                                             ct = ct64\<rparr>,
                                        pos2))))))))"

text \<open>The body of the \<open>try\<close> block of \<open>decrypt\<close>.\<close>

definition decrypt_try :: "'k platform \<Rightarrow> EncryptionPayload \<Rightarrow> jsstring \<Rightarrow> thrown + jsstring" where
  "decrypt_try pf p passphrase =
    (case base64ToArrayBuffer pf (salt p) of
       Inl e \<Rightarrow> Inl e
     | Inr saltBytes \<Rightarrow>
         (case base64ToArrayBuffer pf (iv p) of
            Inl e \<Rightarrow> Inl e
          | Inr ivBytes \<Rightarrow>
              (case base64ToArrayBuffer pf (ct p) of
                 Inl e \<Rightarrow> Inl e
               | Inr ciphertext \<Rightarrow>
                   (case deriveKey pf passphrase saltBytes (iterations p) of
                      Inl e \<Rightarrow> Inl e
                    | Inr key \<Rightarrow>
                        (case subtle_decrypt pf (alg p) key ivBytes ciphertext of
                           Inl e \<Rightarrow> Inl e
                         | Inr plaintextBuffer \<Rightarrow> Inr (TextDecoder_decode plaintextBuffer))))))"

text \<open>The \<open>catch\<close> block of \<open>decrypt\<close>: what is thrown in place of \<open>err\<close>.\<close>

fun decrypt_catch :: "thrown \<Rightarrow> thrown" where
  "decrypt_catch (ErrorObject ename msg) =
    (if includes_str msg (js ''operation-specific'') then
       new_Error (js ''Incorrect passphrase or corrupted data'')
     else if includes_str msg (js ''InvalidAccessError'') then
       new_Error (js ''Incorrect passphrase'')
     else ErrorObject ename msg)"
| "decrypt_catch NonError =
    new_Error (js ''Decryption failed. Please check your passphrase and payload.'')"

definition decrypt :: "'k platform \<Rightarrow> EncryptionPayload \<Rightarrow> jsstring \<Rightarrow> thrown + jsstring" where
  "decrypt pf p passphrase =
    (if \<not> isCryptoSupported pf then
       Inl (new_Error (js ''Web Crypto API is not supported in this browser''))
     else if passphrase_empty passphrase then
       Inl (new_Error (js ''Passphrase cannot be empty''))
     else (case decrypt_try pf p passphrase of
             Inr s \<Rightarrow> Inr s
           | Inl err \<Rightarrow> Inl (decrypt_catch err)))"

subsection \<open>\<open>parsePayload\<close> and \<open>encodePayload\<close>\<close>

text \<open>\<open>input: string | object\<close>.\<close>

datatype payload_input = InString jsstring | InObject jsval

text \<open>
  The first \<open>try\<close> block: a string is decoded by \<open>atob\<close> and parsed; if either step
  throws, the string itself is parsed; if that throws too, the block fails (\<open>None\<close>). An
  object is taken as it is.
\<close>

definition parse_input :: "'k platform \<Rightarrow> payload_input \<Rightarrow> jsval option" where
  "parse_input pf input =
    (case input of
       InString s \<Rightarrow>
         (case atob s of
            None \<Rightarrow> JSON_parse pf s
          | Some decoded \<Rightarrow>
              (case JSON_parse pf decoded of
                 None \<Rightarrow> JSON_parse pf s
               | Some v \<Rightarrow> Some v))
     | InObject v \<Rightarrow> Some v)"

definition parsePayload :: "'k platform \<Rightarrow> payload_input \<Rightarrow> thrown + jsval" where
  "parsePayload pf input =
    (case parse_input pf input of
       None \<Rightarrow>
         Inl (new_Error (js ''Invalid payload format. Must be valid JSON or Base64-encoded JSON.''))
     | Some payload \<Rightarrow>
         if nullish payload then Inl (null_property_error pf)
         else if \<not> truthy (get_prop payload (js ''alg'')) \<or> \<not> truthy (get_prop payload (js ''kdf''))
                 \<or> \<not> truthy (get_prop payload (js ''salt'')) \<or> \<not> truthy (get_prop payload (js ''iv''))
                 \<or> \<not> truthy (get_prop payload (js ''iterations''))
                 \<or> \<not> truthy (get_prop payload (js ''ct'')) then
           Inl (new_Error
                 (js ''Payload missing required fields: alg, kdf, salt, iv, iterations, ct''))
         else if get_prop payload (js ''alg'') \<noteq> JStr (js ''AES-GCM'') then
           Inl (new_Error (js ''Unsupported algorithm: '' @ ToString (get_prop payload (js ''alg''))
                             @ js ''. Only AES-GCM is supported.''))
         else if get_prop payload (js ''kdf'') \<noteq> JStr (js ''PBKDF2'') then
           Inl (new_Error (js ''Unsupported KDF: '' @ ToString (get_prop payload (js ''kdf''))
                             @ js ''. Only PBKDF2 is supported.''))
         else Inr payload)"

text \<open>An \<open>EncryptionPayload\<close> as the object it is at run time.\<close>

definition payload_object :: "EncryptionPayload \<Rightarrow> jsval" where
  "payload_object p =
    JObj [(js ''alg'', JStr (alg p)), (js ''kdf'', JStr (kdf p)), (js ''salt'', JStr (salt p)),
          (js ''iv'', JStr (iv p)), (js ''iterations'', JNum (iterations p)),
          (js ''ct'', JStr (ct p))]"

text \<open>\<open>encodePayload\<close>: \<open>btoa(JSON.stringify(payload))\<close>.\<close>

definition encodePayload :: "'k platform \<Rightarrow> EncryptionPayload \<Rightarrow> thrown + jsstring" where
  "encodePayload pf p =
    (let json = JSON_serialize (payload_object p)
     in (case btoa json of
           None \<Rightarrow> Inl (invalid_character_error pf)
         | Some b64 \<Rightarrow> Inr b64))"


subsection \<open>The caller of \<open>encrypt\<close>: the guards of \<open>handleEncrypt\<close> (EncryptTab)\<close>

text \<open>
  \<open>handleEncrypt\<close> starts with two guards, each of which sets the error message shown
  and returns before \<open>encrypt\<close> is called; \<open>None\<close> when both pass.
\<close>

definition handleEncrypt_guard :: "jsstring \<Rightarrow> jsstring \<Rightarrow> jsstring option" where
  "handleEncrypt_guard plain passphrase =
    (if trim plain = [] then Some (js ''Please enter text or upload a file'')
     else if trim passphrase = [] then Some (js ''Please enter a passphrase'')
     else None)"


section \<open>The history store (src/lib/storage.ts)\<close>

text \<open>The fields \<open>id\<close> and \<open>size\<close> of the source are \<open>id'\<close> and \<open>size'\<close> here.\<close>

record HistoryItem =
  id' :: jsstring
  name :: jsstring
  timestamp :: int
  payload :: EncryptionPayload
  size' :: int
















section \<open>A reference platform\<close>

text \<open>
  A small platform on which the library runs, used to evaluate the model on concrete
  inputs. Its key derivation and its cipher are stand-ins with the interface of PBKDF2 and
  AES-GCM, not the algorithms: a key is the passphrase bytes, the salt and the iteration
  count; sealing masks the plaintext with a byte of the key and appends a 16-byte tag that
  folds the key, the iv and the masked plaintext; opening checks the tag.
\<close>

definition xor_fold :: "byte list \<Rightarrow> byte" where
  "xor_fold bs = foldr (XOR) bs 0"

definition ref_type_error :: thrown where
  "ref_type_error = ErrorObject ''TypeError'' (js ''Value is outside the range of unsigned long'')"

definition ref_operation_error :: thrown where
  "ref_operation_error =
    ErrorObject ''OperationError'' (js ''The operation failed for an operation-specific reason'')"

definition ref_not_supported_error :: thrown where
  "ref_not_supported_error = ErrorObject ''NotSupportedError'' (js ''Unrecognized name.'')"

text \<open>The iteration count is an \<open>unsigned long\<close> and must not be zero.\<close>

definition ref_pbkdf2 :: "byte list \<Rightarrow> byte list \<Rightarrow> int \<Rightarrow> thrown + byte list" where
  "ref_pbkdf2 pw saltBytes iters =
    (if iters < 0 \<or> 4294967295 < iters then Inl ref_type_error
     else if iters = 0 then Inl ref_operation_error
     else Inr (pw @ saltBytes @ [of_int (iters div 16777216), of_int (iters div 65536),
                                 of_int (iters div 256), of_int iters]))"

definition ref_tag :: "byte list \<Rightarrow> byte list \<Rightarrow> byte list \<Rightarrow> byte list" where
  "ref_tag key ivBytes masked = xor_fold (key @ ivBytes @ masked) # replicate 15 0"

definition ref_seal :: "jsstring \<Rightarrow> byte list \<Rightarrow> byte list \<Rightarrow> byte list \<Rightarrow> thrown + byte list" where
  "ref_seal algorithm key ivBytes plain =
    (if algorithm \<noteq> js ''AES-GCM'' then Inl ref_not_supported_error
     else let masked = map (\<lambda>b. b XOR xor_fold key) plain
          in Inr (masked @ ref_tag key ivBytes masked))"

definition ref_open :: "jsstring \<Rightarrow> byte list \<Rightarrow> byte list \<Rightarrow> byte list \<Rightarrow> thrown + byte list" where
  "ref_open algorithm key ivBytes data =
    (if algorithm \<noteq> js ''AES-GCM'' then Inl ref_not_supported_error
     else if length data < 16 then Inl ref_operation_error
     else let masked = take (length data - 16) data
          in if drop (length data - 16) data = ref_tag key ivBytes masked then
               Inr (map (\<lambda>b. b XOR xor_fold key) masked)
             else Inl ref_operation_error)"

text \<open>
  A reader for the JSON texts that \<open>JSON.stringify\<close> writes for flat objects: no white
  space, string values with the two-character escapes, integers, \<open>true\<close>, \<open>false\<close> and
  \<open>null\<close>.
\<close>

definition unescape :: "code_unit \<Rightarrow> code_unit option" where
  "unescape e =
    (if e = 0x22 \<or> e = 0x5C \<or> e = 0x2F then Some e
     else if e = 0x62 then Some 0x08
     else if e = 0x66 then Some 0x0C
     else if e = 0x6E then Some 0x0A
     else if e = 0x72 then Some 0x0D
     else if e = 0x74 then Some 0x09
     else None)"

fun read_string :: "jsstring \<Rightarrow> (jsstring \<times> jsstring) option" where
  "read_string [] = None"
| "read_string (c # cs) =
    (if c = 0x22 then Some ([], cs)
     else if c = 0x5C then
       (case cs of
          [] \<Rightarrow> None
        | e # cs' \<Rightarrow>
            (case unescape e of
               None \<Rightarrow> None
             | Some u \<Rightarrow>
                 (case read_string cs' of None \<Rightarrow> None | Some (s, r) \<Rightarrow> Some (u # s, r))))
     else if c < 0x20 then None
     else (case read_string cs of None \<Rightarrow> None | Some (s, r) \<Rightarrow> Some (c # s, r)))"

definition digits_value :: "jsstring \<Rightarrow> nat" where
  "digits_value ds = foldl (\<lambda>n d. 10 * n + (unat d - 0x30)) 0 ds"

definition read_nat :: "jsstring \<Rightarrow> (nat \<times> jsstring) option" where
  "read_nat s =
    (let ds = takeWhile is_digit s
     in if ds = [] \<or> (1 < length ds \<and> hd ds = 0x30) then None
        else Some (digits_value ds, dropWhile is_digit s))"

definition read_value :: "jsstring \<Rightarrow> (jsval \<times> jsstring) option" where
  "read_value s =
    (if take 1 s = js ''\"'' then
       (case read_string (drop 1 s) of None \<Rightarrow> None | Some (t, r) \<Rightarrow> Some (JStr t, r))
     else if take 4 s = js ''true'' then Some (JBool True, drop 4 s)
     else if take 5 s = js ''false'' then Some (JBool False, drop 5 s)
     else if take 4 s = js ''null'' then Some (JNull, drop 4 s)
     else if take 1 s = js ''-'' then
       (case read_nat (drop 1 s) of None \<Rightarrow> None | Some (n, r) \<Rightarrow> Some (JNum (- int n), r))
     else (case read_nat s of None \<Rightarrow> None | Some (n, r) \<Rightarrow> Some (JNum (int n), r)))"

text \<open>A property read twice keeps its place and takes the later value.\<close>

definition set_property :: "jsstring \<Rightarrow> jsval \<Rightarrow> (jsstring \<times> jsval) list \<Rightarrow> (jsstring \<times> jsval) list" where
  "set_property k v kvs =
    (if k \<in> fst ` set kvs then map (\<lambda>(k', v'). if k' = k then (k, v) else (k', v')) kvs
     else kvs @ [(k, v)])"

text \<open>The members of an object; the first argument bounds the number of members read.\<close>

fun read_members :: "nat \<Rightarrow> jsstring \<Rightarrow> (jsstring \<times> jsval) list \<Rightarrow> jsval option" where
  "read_members 0 s acc = None"
| "read_members (Suc n) s acc =
    (if take 1 s \<noteq> js ''\"'' then None
     else (case read_string (drop 1 s) of
             None \<Rightarrow> None
           | Some (k, r) \<Rightarrow>
               if take 1 r \<noteq> js '':'' then None
               else (case read_value (drop 1 r) of
                       None \<Rightarrow> None
                     | Some (v, r') \<Rightarrow>
                         if r' = js ''}'' then Some (JObj (set_property k v acc))
                         else if take 1 r' = js '','' then
                           read_members n (drop 1 r') (set_property k v acc)
                         else None)))"

definition ref_JSON_parse :: "jsstring \<Rightarrow> jsval option" where
  "ref_JSON_parse s =
    (if s = js ''{}'' then Some (JObj [])
     else if take 1 s = js ''{'' then read_members (length s) (drop 1 s) []
     else (case read_value s of
             None \<Rightarrow> None
           | Some (v, r) \<Rightarrow> if r = [] then Some v else None))"

definition ref_platform :: "(byte list) platform" where
  "ref_platform =
    \<lparr>crypto_supported = True,
     random_source = (\<lambda>n. of_nat (7 * n + 3)),
     pbkdf2 = ref_pbkdf2,
     subtle_encrypt = ref_seal,
     subtle_decrypt = ref_open,
     JSON_parse = ref_JSON_parse,
     invalid_character_error =
       ErrorObject ''InvalidCharacterError'' (js ''The string to be decoded is not correctly encoded.''),
     null_property_error =
       ErrorObject ''TypeError'' (js ''Cannot read properties of null (reading alg)'')\<rparr>"

definition no_options :: EncryptionOptions where
  "no_options = \<lparr>opt_iterations = None, opt_algorithm = None\<rparr>"


section \<open>Notions used to state the properties\<close>

text \<open>The salt and the iv a call of \<open>encrypt\<close> draws at position \<open>pos\<close> of the random source.\<close>

definition salt_bytes :: "'k platform \<Rightarrow> nat \<Rightarrow> byte list" where
  "salt_bytes pf pos = fst (generateSalt pf 16 pos)"

definition iv_bytes :: "'k platform \<Rightarrow> nat \<Rightarrow> byte list" where
  "iv_bytes pf pos = fst (generateIV pf (snd (generateSalt pf 16 pos)))"

text \<open>\<open>options.iterations || 200000\<close>, the iteration count a call of \<open>encrypt\<close> uses.\<close>

definition resolved_iterations :: "EncryptionOptions \<Rightarrow> int" where
  "resolved_iterations options =
    (case opt_iterations options of None \<Rightarrow> 200000 | Some n \<Rightarrow> if n = 0 then 200000 else n)"

text \<open>The text \<open>arrayBufferToBase64\<close> returns for a byte sequence.\<close>

definition base64_of :: "byte list \<Rightarrow> jsstring" where
  "base64_of bytes = base64_encode (map unat bytes)"

text \<open>
  What is assumed of the platform's cipher for the round trip: opening what was sealed,
  under the same algorithm name, key and iv, returns the plaintext.
\<close>

definition aead_correct :: "'k platform \<Rightarrow> bool" where
  "aead_correct pf =
    (\<forall>a key ivBytes plain sealed.
       subtle_encrypt pf a key ivBytes plain = Inr sealed
         \<longrightarrow> subtle_decrypt pf a key ivBytes sealed = Inr plain)"

text \<open>A string that UTF-8 encoding followed by decoding leaves unchanged.\<close>

definition utf8_stable :: "jsstring \<Rightarrow> bool" where
  "utf8_stable s = (TextDecoder_decode (TextEncoder_encode s) = s)"

text \<open>Bit \<open>i\<close> of a byte sequence flipped (bit \<open>i mod 8\<close> of byte \<open>i div 8\<close>).\<close>

definition flip_bit :: "byte list \<Rightarrow> nat \<Rightarrow> byte list" where
  "flip_bit bs i = bs[i div 8 := (bs ! (i div 8)) XOR push_bit (i mod 8) 1]"

text \<open>
  What is assumed of the platform's cipher for tamper detection: when an iv and a
  ciphertext open under a key, the same data with one bit of the ciphertext or of the iv
  flipped is refused with the exception \<open>e\<close> (the platform's \<open>OperationError\<close>).
\<close>

definition detects_bit_flips :: "'k platform \<Rightarrow> thrown \<Rightarrow> bool" where
  "detects_bit_flips pf e =
    (\<forall>a key ivBytes sealed plain.
       subtle_decrypt pf a key ivBytes sealed = Inr plain \<longrightarrow>
         (\<forall>i < 8 * length sealed. subtle_decrypt pf a key ivBytes (flip_bit sealed i) = Inl e)
         \<and> (\<forall>i < 8 * length ivBytes. subtle_decrypt pf a key (flip_bit ivBytes i) sealed = Inl e))"

text \<open>
  The invariant of section 3 of the specification on a decoded envelope: the algorithm and
  kdf identifiers are the supported ones, \<open>salt\<close> and \<open>iv\<close> decode to non-empty byte
  sequences, \<open>iterations\<close> is positive and \<open>ct\<close> is present and non-empty.
\<close>

definition decodes_nonempty :: "jsval \<Rightarrow> bool" where
  "decodes_nonempty v =
    (case v of
       JStr s \<Rightarrow> (case atob s of None \<Rightarrow> False | Some bytes \<Rightarrow> bytes \<noteq> [])
     | _ \<Rightarrow> False)"

definition is_positive :: "jsval \<Rightarrow> bool" where
  "is_positive v = (case v of JNum n \<Rightarrow> 0 < n | _ \<Rightarrow> False)"

definition spec_invariant :: "jsval \<Rightarrow> bool" where
  "spec_invariant v =
    (get_prop v (js ''alg'') = JStr (js ''AES-GCM'') \<and> get_prop v (js ''kdf'') = JStr (js ''PBKDF2'')
     \<and> decodes_nonempty (get_prop v (js ''salt'')) \<and> decodes_nonempty (get_prop v (js ''iv''))
     \<and> is_positive (get_prop v (js ''iterations'')) \<and> truthy (get_prop v (js ''ct'')))"

text \<open>What \<open>parsePayload\<close> checks: the six fields are truthy and the identifiers match.\<close>

definition fields_present :: "jsval \<Rightarrow> bool" where
  "fields_present v =
    (truthy (get_prop v (js ''alg'')) \<and> truthy (get_prop v (js ''kdf''))
     \<and> truthy (get_prop v (js ''salt'')) \<and> truthy (get_prop v (js ''iv''))
     \<and> truthy (get_prop v (js ''iterations'')) \<and> truthy (get_prop v (js ''ct'')))"

text \<open>
  A valid envelope as a typed record: the supported identifiers, \<open>salt\<close> and \<open>iv\<close> Base64
  texts of non-empty byte sequences, a positive iteration count and a non-empty Base64
  ciphertext.
\<close>

definition valid_envelope :: "EncryptionPayload \<Rightarrow> bool" where
  "valid_envelope p =
    (alg p = js ''AES-GCM'' \<and> kdf p = js ''PBKDF2''
     \<and> decodes_nonempty (JStr (salt p)) \<and> decodes_nonempty (JStr (iv p))
     \<and> 0 < iterations p \<and> decodes_nonempty (JStr (ct p)))"

text \<open>An envelope that \<open>parsePayload\<close> accepts although the invariant fails.\<close>

definition unchecked_envelope :: jsval where
  "unchecked_envelope =
    JObj [(js ''alg'', JStr (js ''AES-GCM'')), (js ''kdf'', JStr (js ''PBKDF2'')),
          (js ''salt'', JStr (js ''!'')), (js ''iv'', JStr (js ''!'')),
          (js ''iterations'', JNum (- 1)), (js ''ct'', JStr (js ''x''))]"


section \<open>Properties of the strength estimate\<close>

subsection \<open>Entropy comparisons as integer comparisons\<close>

text \<open>
  The entropy is a real logarithm; comparing it with a threshold is comparing two integer
  powers, which is how concrete passwords are evaluated below.
\<close>

lemma entropy_lt_iff:
  assumes "1 \<le> c"
  shows "real n * log 2 (real c) < real k \<longleftrightarrow> c ^ n < 2 ^ k"
proof -
  have "real n * log 2 (real c) = log 2 (real (c ^ n))"
    using assms by (simp add: log_nat_power)
  moreover have "log 2 (real (c ^ n)) < real k \<longleftrightarrow> real (c ^ n) < 2 powr real k"
    using assms by (subst log_less_iff) auto
  moreover have "(2::real) powr real k = real (2 ^ k)"
    by (simp add: powr_realpow)
  ultimately show ?thesis
    by (metis of_nat_less_iff)
qed

lemma Math_round_entropyI:
  assumes "1 \<le> c" and "2 ^ (2 * m) \<le> 2 * c ^ (2 * n)" and "c ^ (2 * n) < 2 ^ (2 * m + 1)"
  shows "Math_round (real n * log 2 (real c)) = int m"
proof -
  let ?x = "real n * log 2 (real c)"
  have up: "real (2 * n) * log 2 (real c) < real (2 * m + 1)"
    using assms(1,3) by (simp only: entropy_lt_iff)
  have "\<not> 2 * c ^ (2 * n) < 2 ^ (2 * m)" using assms(2) by simp
  moreover have "1 \<le> c ^ (2 * n)" using assms(1) by simp
  ultimately have "\<not> c ^ (2 * n) < 2 ^ (2 * m - 1)"
    by (cases m) simp_all
  then have "\<not> real (2 * n) * log 2 (real c) < real (2 * m - 1)"
    using assms(1) entropy_lt_iff[of c "2 * n" "2 * m - 1"] by blast
  then have lo: "real (2 * m - 1) \<le> 2 * ?x"
    by (simp add: algebra_simps)
  have lo': "real m \<le> ?x + 1 / 2"
    using lo by (cases m) (simp_all add: algebra_simps)
  have up': "?x + 1 / 2 < real m + 1"
    using up by (simp add: algebra_simps)
  show ?thesis
    unfolding Math_round_def using lo' up' by (simp add: floor_eq_iff)
qed

lemma entropy_bits_lt:
  "entropy_bits pw < real k \<longleftrightarrow>
     (if charSetSize pw = 0 then 1 else charSetSize pw) ^ length pw < 2 ^ k"
  unfolding entropy_bits_def by (rule entropy_lt_iff) simp

lemma score_by_power:
  assumes "pw \<noteq> []"
  shows "score (calculatePasswordStrength pw) =
    (let N = (if charSetSize pw = 0 then 1 else charSetSize pw) ^ length pw
     in if N < 2 ^ 28 then 0 else if N < 2 ^ 36 then 1 else if N < 2 ^ 60 then 2
        else if N < 2 ^ 128 then 3 else 4)"
  using assms entropy_bits_lt[of pw 28] entropy_bits_lt[of pw 36] entropy_bits_lt[of pw 60]
    entropy_bits_lt[of pw 128]
  by (simp add: calculatePasswordStrength_def Let_def)

lemma entropy_by_power:
  assumes "pw \<noteq> []"
    and "2 ^ (2 * m) \<le> 2 * (if charSetSize pw = 0 then 1 else charSetSize pw) ^ (2 * length pw)"
    and "(if charSetSize pw = 0 then 1 else charSetSize pw) ^ (2 * length pw) < 2 ^ (2 * m + 1)"
  shows "strength.entropy (calculatePasswordStrength pw) = int m"
proof -
  have "Math_round (entropy_bits pw) = int m"
    unfolding entropy_bits_def by (rule Math_round_entropyI[OF _ assms(2,3)]) simp
  then show ?thesis using assms(1) by (simp add: calculatePasswordStrength_def Let_def)
qed

lemmas charset_eval = charSetSize_def regex_test_def is_lower_def is_upper_def is_digit_def
  is_other_def js_def

text \<open>Three passwords evaluated: a short one, the specification's passphrase, and twelve
  symbols, whose entropy is exactly the threshold 60.\<close>

lemma strength_abc:
  "score (calculatePasswordStrength (js ''abc'')) = 0"
  "strength.entropy (calculatePasswordStrength (js ''abc'')) = 14"
  using entropy_by_power[of "js ''abc''" 14] by (simp_all add: score_by_power charset_eval)

lemma strength_staple:
  "score (calculatePasswordStrength (js ''correct horse battery staple'')) = 4"
  "strength.entropy (calculatePasswordStrength (js ''correct horse battery staple'')) = 164"
  using entropy_by_power[of "js ''correct horse battery staple''" 164]
  by (simp_all add: score_by_power charset_eval)

lemma strength_twelve_symbols:
  "score (calculatePasswordStrength (js ''!!!!!!!!!!!!'')) = 3"
  "strength.entropy (calculatePasswordStrength (js ''!!!!!!!!!!!!'')) = 60"
  using entropy_by_power[of "js ''!!!!!!!!!!!!''" 60]
  by (simp_all add: score_by_power charset_eval)

subsection \<open>The source computes the specification's step function\<close>




subsection \<open>Monotonicity in the length\<close>

lemma class_disjoint:
  "is_lower c \<Longrightarrow> \<not> is_upper c \<and> \<not> is_digit c \<and> \<not> is_other c"
  "is_upper c \<Longrightarrow> \<not> is_lower c \<and> \<not> is_digit c \<and> \<not> is_other c"
  "is_digit c \<Longrightarrow> \<not> is_lower c \<and> \<not> is_upper c \<and> \<not> is_other c"
  "is_other c \<Longrightarrow> \<not> is_lower c \<and> \<not> is_upper c \<and> \<not> is_digit c"
  by (auto simp: is_lower_def is_upper_def is_digit_def is_other_def word_le_nat_alt)

lemma charSetSize_class:
  assumes "list_all (in_class k) pw" and "pw \<noteq> []"
  shows "charSetSize pw = class_size k"
proof -
  obtain x xs where pw: "pw = x # xs" using assms(2) by (cases pw) auto
  have all: "\<And>c. c \<in> set pw \<Longrightarrow> in_class k c" using assms(1) by (simp add: list_all_iff)
  have x: "in_class k x" using all pw by simp
  show ?thesis
  proof (cases k)
    case Lowercase
    then have "list_ex is_lower pw" "\<not> list_ex is_upper pw" "\<not> list_ex is_digit pw"
      "\<not> list_ex is_other pw"
      using x all class_disjoint(1) by (auto simp: list_ex_iff pw)
    then show ?thesis using Lowercase by (simp add: charSetSize_def regex_test_def)
  next
    case Uppercase
    then have "\<not> list_ex is_lower pw" "list_ex is_upper pw" "\<not> list_ex is_digit pw"
      "\<not> list_ex is_other pw"
      using x all class_disjoint(2) by (auto simp: list_ex_iff pw)
    then show ?thesis using Uppercase by (simp add: charSetSize_def regex_test_def)
  next
    case Digits
    then have "\<not> list_ex is_lower pw" "\<not> list_ex is_upper pw" "list_ex is_digit pw"
      "\<not> list_ex is_other pw"
      using x all class_disjoint(3) by (auto simp: list_ex_iff pw)
    then show ?thesis using Digits by (simp add: charSetSize_def regex_test_def)
  next
    case Symbols
    then have "\<not> list_ex is_lower pw" "\<not> list_ex is_upper pw" "\<not> list_ex is_digit pw"
      "list_ex is_other pw"
      using x all class_disjoint(4) by (auto simp: list_ex_iff pw)
    then show ?thesis using Symbols by (simp add: charSetSize_def regex_test_def)
  qed
qed

lemma entropy_bits_mono:
  assumes "charSetSize p = charSetSize q" and "length p \<le> length q"
  shows "entropy_bits p \<le> entropy_bits q"
proof -
  let ?c = "real (if charSetSize q = 0 then 1 else charSetSize q)"
  have "1 \<le> ?c" by simp
  then have "0 \<le> log 2 ?c" by (simp only: zero_le_log_cancel_iff)
  moreover have "real (length p) \<le> real (length q)" using assms(2) by simp
  ultimately have "real (length p) * log 2 ?c \<le> real (length q) * log 2 ?c"
    by (rule mult_right_mono[rotated])
  moreover have "entropy_bits p = real (length p) * log 2 ?c"
    unfolding entropy_bits_def assms(1) ..
  moreover have "entropy_bits q = real (length q) * log 2 ?c"
    unfolding entropy_bits_def ..
  ultimately show ?thesis by simp
qed

lemma score_mono_entropy:
  assumes "p \<noteq> []" and "q \<noteq> []" and "entropy_bits p \<le> entropy_bits q"
  shows "score (calculatePasswordStrength p) \<le> score (calculatePasswordStrength q)"
  using assms by (simp add: calculatePasswordStrength_def Let_def)

text \<open>
  C9. For two passwords drawn from one character class (lowercase letters, uppercase
  letters, digits, or symbols), the longer one scores at least as high as the shorter.
\<close>

theorem score_monotone_in_length:
  assumes "list_all (in_class k) p" and "list_all (in_class k) q" and "length p \<le> length q"
  shows "score (calculatePasswordStrength p) \<le> score (calculatePasswordStrength q)"
proof (cases "p = []")
  case True
  then show ?thesis by (simp add: calculatePasswordStrength_def)
next
  case False
  then have q: "q \<noteq> []" using assms(3) by auto
  have "charSetSize p = charSetSize q"
    using charSetSize_class[OF assms(1) False] charSetSize_class[OF assms(2) q] by simp
  then have "entropy_bits p \<le> entropy_bits q" using assms(3) by (rule entropy_bits_mono)
  then show ?thesis using False q by (rule score_mono_entropy[rotated 2])
qed

theorem score_monotone_in_length_witness:
  "list_all (in_class Lowercase) (js ''abcde'')
   \<and> list_all (in_class Lowercase) (js ''abcdefgh'')
   \<and> length (js ''abcde'') \<le> length (js ''abcdefgh'')
   \<and> score (calculatePasswordStrength (js ''abcde''))
       \<le> score (calculatePasswordStrength (js ''abcdefgh''))"
  using score_monotone_in_length[of Lowercase "js ''abcde''" "js ''abcdefgh''"]
  by (simp add: js_def is_lower_def)

section \<open>Base64: \<open>atob\<close> undoes \<open>btoa\<close>\<close>

lemma div_mod_group:
  fixes q r m :: nat
  assumes "r < m"
  shows "(q * m + r) div m = q" and "(q * m + r) mod m = r"
  using assms by simp_all

lemma regroup3:
  fixes a b c :: nat
  assumes "a < 256" "b < 256" "c < 256"
  shows "a div 4 * 4 + ((a mod 4) * 16 + b div 16) div 16 = a"
    and "((a mod 4) * 16 + b div 16) mod 16 * 16 + ((b mod 16) * 4 + c div 64) div 4 = b"
    and "((b mod 16) * 4 + c div 64) mod 4 * 64 + c mod 64 = c"
proof -
  have bd: "b div 16 < 16" using assms(2) by (simp add: less_mult_imp_div_less)
  have cd: "c div 64 < 4" using assms(3) by (simp add: less_mult_imp_div_less)
  show "a div 4 * 4 + ((a mod 4) * 16 + b div 16) div 16 = a"
    by (simp only: div_mod_group[OF bd] div_mult_mod_eq)
  show "((a mod 4) * 16 + b div 16) mod 16 * 16 + ((b mod 16) * 4 + c div 64) div 4 = b"
    by (simp only: div_mod_group[OF bd] div_mod_group[OF cd] div_mult_mod_eq)
  show "((b mod 16) * 4 + c div 64) mod 4 * 64 + c mod 64 = c"
    by (simp only: div_mod_group[OF cd] div_mult_mod_eq)
qed

lemma regroup2:
  fixes a b :: nat
  assumes "a < 256" "b < 256"
  shows "a div 4 * 4 + ((a mod 4) * 16 + b div 16) div 16 = a"
    and "((a mod 4) * 16 + b div 16) mod 16 * 16 + ((b mod 16) * 4) div 4 = b"
proof -
  have bd: "b div 16 < 16" using assms(2) by (simp add: less_mult_imp_div_less)
  show "a div 4 * 4 + ((a mod 4) * 16 + b div 16) div 16 = a"
    by (simp only: div_mod_group[OF bd] div_mult_mod_eq)
  have "((b mod 16) * 4) div 4 = b mod 16" by simp
  then show "((a mod 4) * 16 + b div 16) mod 16 * 16 + ((b mod 16) * 4) div 4 = b"
    by (simp only: div_mod_group[OF bd] div_mult_mod_eq)
qed

lemma regroup1:
  fixes a :: nat
  shows "a div 4 * 4 + ((a mod 4) * 16) div 16 = a"
proof -
  have "((a mod 4) * 16) div 16 = a mod 4" by simp
  then show ?thesis by (simp only: div_mult_mod_eq)
qed

lemma sextet_bounds:
  fixes a b c :: nat
  assumes "a < 256" "b < 256" "c < 256"
  shows "a div 4 < 64" "(a mod 4) * 16 + b div 16 < 64" "(b mod 16) * 4 + c div 64 < 64"
    "c mod 64 < 64" "(b mod 16) * 4 < 64" "(a mod 4) * 16 < 64"
proof -
  have bd: "b div 16 < 16" using assms(2) by (simp add: less_mult_imp_div_less)
  have cd: "c div 64 < 4" using assms(3) by (simp add: less_mult_imp_div_less)
  have am: "a mod 4 < 4" and bm: "b mod 16 < 16" by simp_all
  show "a div 4 < 64" using assms(1) by (simp add: less_mult_imp_div_less)
  show "(a mod 4) * 16 + b div 16 < 64" using am bd by linarith
  show "(b mod 16) * 4 + c div 64 < 64" using bm cd by linarith
  show "c mod 64 < 64" by simp
  show "(b mod 16) * 4 < 64" using bm by linarith
  show "(a mod 4) * 16 < 64" using am by linarith
qed

lemma octets_sextets:
  "list_all (\<lambda>x. x < 256) bs \<Longrightarrow> octets (sextets bs) = bs"
proof (induction bs rule: sextets.induct)
  case (1 a b c rest)
  then have "a < 256" "b < 256" "c < 256" "list_all (\<lambda>x. x < 256) rest" by simp_all
  then show ?case using 1 regroup3[of a b c] by simp
next
  case (2 a b)
  then show ?case using regroup2[of a b] by simp
next
  case (3 a)
  then show ?case using regroup1[of a] by simp
qed simp

lemma sextets_bound:
  "list_all (\<lambda>x. x < 256) bs \<Longrightarrow> list_all (\<lambda>v. v < 64) (sextets bs)"
proof (induction bs rule: sextets.induct)
  case (1 a b c rest)
  then have "a < 256" "b < 256" "c < 256" "list_all (\<lambda>x. x < 256) rest" by simp_all
  then show ?case using 1 sextet_bounds[of a b c] by simp
next
  case (2 a b)
  then have "a < 256" "b < 256" by simp_all
  then show ?case using sextet_bounds[of a b 0] by simp
next
  case (3 a)
  then have "a < 256" by simp
  then show ?case using sextet_bounds[of a 0 0] by simp
qed simp

lemma length_sextets:
  "length (sextets bs) = 4 * (length bs div 3) + (if length bs mod 3 = 0 then 0 else length bs mod 3 + 1)"
  by (induction bs rule: sextets.induct) simp_all

lemma alphabet_table:
  "list_all (\<lambda>v. b64_value (b64_char v) = Some v \<and> b64_char v \<noteq> 0x3D
      \<and> \<not> is_ascii_whitespace (b64_char v)) [0..<64]"
  by code_simp

lemma b64_char_props:
  assumes "v < 64"
  shows "b64_value (b64_char v) = Some v" "b64_char v \<noteq> 0x3D" "\<not> is_ascii_whitespace (b64_char v)"
  using alphabet_table assms unfolding list_all_iff by auto

lemma those_values_chars:
  "list_all (\<lambda>v. v < 64) vs \<Longrightarrow> those_values (map b64_char vs) = Some vs"
  by (induction vs) (simp_all add: b64_char_props(1))

lemma filter_ws_chars:
  "list_all (\<lambda>v. v < 64) vs \<Longrightarrow>
     filter (\<lambda>c. \<not> is_ascii_whitespace c) (map b64_char vs) = map b64_char vs"
  by (induction vs) (simp_all add: b64_char_props(3))

lemma filter_ws_padding:
  "filter (\<lambda>c. \<not> is_ascii_whitespace c) (b64_padding n) = b64_padding n"
  by (simp add: b64_padding_def is_ascii_whitespace_def)

lemma last_chars_not_pad:
  assumes "list_all (\<lambda>v. v < 64) vs" and "vs \<noteq> []"
  shows "last (map b64_char vs) \<noteq> 0x3D"
proof -
  have "last vs \<in> set vs" using assms(2) by simp
  then have "last vs < 64" using assms(1) by (simp add: list_all_iff)
  then show ?thesis using assms(2) by (simp add: last_map b64_char_props(2))
qed

lemma strip_padding_encode:
  assumes "list_all (\<lambda>x. x < 256) bs"
  shows "strip_padding (base64_encode bs) = map b64_char (sextets bs)"
proof -
  let ?vs = "sextets bs"
  have vs: "list_all (\<lambda>v. v < 64) ?vs" using assms by (rule sextets_bound)
  have "length bs mod 3 = 0 \<or> length bs mod 3 = 1 \<or> length bs mod 3 = 2" by arith
  then show ?thesis
  proof (elim disjE)
    assume m: "length bs mod 3 = 0"
    then have e: "base64_encode bs = map b64_char ?vs"
      by (simp add: base64_encode_def b64_padding_def)
    show ?thesis
    proof (cases "?vs = []")
      case True
      then show ?thesis by (simp add: e strip_padding_def)
    next
      case False
      then show ?thesis using last_chars_not_pad[OF vs False] by (simp add: e strip_padding_def)
    qed
  next
    assume m: "length bs mod 3 = 1"
    then have e: "base64_encode bs = map b64_char ?vs @ [0x3D, 0x3D]"
      by (simp add: base64_encode_def b64_padding_def numeral_2_eq_2)
    have "length (base64_encode bs) mod 4 = 0"
      unfolding e by (simp add: length_sextets m)
    moreover have "butlast (map b64_char ?vs @ [0x3D, 0x3D]) = map b64_char ?vs @ [0x3D]"
      by (simp add: butlast_append)
    ultimately show ?thesis by (simp add: e strip_padding_def)
  next
    assume m: "length bs mod 3 = 2"
    then have e: "base64_encode bs = map b64_char ?vs @ [0x3D]"
      by (simp add: base64_encode_def b64_padding_def)
    have ne: "?vs \<noteq> []" using m length_sextets[of bs] by auto
    have "length (base64_encode bs) mod 4 = 0"
      unfolding e by (simp add: length_sextets m)
    then show ?thesis using last_chars_not_pad[OF vs ne] ne by (simp add: e strip_padding_def)
  qed
qed

lemma length_sextets_mod4: "length (sextets bs) mod 4 \<noteq> Suc 0"
proof -
  have "length bs mod 3 = 0 \<or> length bs mod 3 = 1 \<or> length bs mod 3 = 2" by arith
  then show ?thesis by (auto simp: length_sextets)
qed

lemma atob_base64_encode:
  assumes "list_all (\<lambda>x. x < 256) bs"
  shows "atob (base64_encode bs) = Some (map of_nat bs)"
proof -
  have vs: "list_all (\<lambda>v. v < 64) (sextets bs)" using assms by (rule sextets_bound)
  have "filter (\<lambda>c. \<not> is_ascii_whitespace c) (base64_encode bs) = base64_encode bs"
    by (simp add: base64_encode_def filter_ws_chars[OF vs] filter_ws_padding)
  then show ?thesis
    by (simp add: atob_def strip_padding_encode[OF assms] length_sextets_mod4
        those_values_chars[OF vs] octets_sextets[OF assms])
qed

lemma atob_btoa:
  "btoa s = Some t \<Longrightarrow> atob t = Some s"
proof -
  assume a: "btoa s = Some t"
  then have l: "list_all (\<lambda>c. c \<le> 0xFF) s" and t: "t = base64_encode (map unat s)"
    by (auto simp: btoa_def split: if_splits)
  have "list_all (\<lambda>x. x < 256) (map unat s)"
    using l by (auto simp: list_all_iff word_le_nat_alt)
  then have "atob t = Some (map of_nat (map unat s))"
    unfolding t by (rule atob_base64_encode)
  then show ?thesis by (simp add: comp_def)
qed

subsection \<open>The wrappers \<open>arrayBufferToBase64\<close> and \<open>base64ToArrayBuffer\<close>\<close>

lemma byte_lt_256: "unat (b :: byte) < 256"
  using unsigned_less[of b, where 'a = nat] by simp

lemma unat_fromCharCode: "unat (ucast (b :: byte) :: code_unit) = unat b"
proof -
  have "unat b < 2 ^ 16" using byte_lt_256[of b] by simp
  then show ?thesis by (simp add: unsigned_ucast_eq take_bit_nat_eq_self)
qed

lemma charCodeAt_fromCharCode: "(ucast (of_nat (unat (b :: byte)) :: code_unit) :: byte) = b"
proof -
  have "(of_nat (unat b) :: code_unit) = ucast b" by simp
  moreover have "(ucast (ucast b :: code_unit) :: byte) = b"
    by (rule ucast_up_ucast_id) (simp add: is_up)
  ultimately show ?thesis by simp
qed

lemma bytes_bounded: "list_all (\<lambda>x. x < 256) (map unat (bytes :: byte list))"
  by (simp add: list_all_iff byte_lt_256)

lemma arrayBufferToBase64_eq:
  "arrayBufferToBase64 pf bytes = Inr (base64_encode (map unat bytes))"
proof -
  have "(ucast b :: code_unit) \<le> 0xFF" for b :: byte
    using byte_lt_256[of b] by (simp add: word_le_nat_alt unat_fromCharCode)
  then have l: "list_all (\<lambda>c. c \<le> 0xFF) (map ucast bytes :: jsstring)"
    by (simp add: list_all_iff)
  show ?thesis
    unfolding arrayBufferToBase64_def btoa_def Let_def
    by (simp add: l comp_def unat_fromCharCode)
qed

lemma base64ToArrayBuffer_encode:
  "base64ToArrayBuffer pf (base64_encode (map unat bytes)) = Inr bytes"
proof -
  have "atob (base64_encode (map unat bytes)) = Some (map of_nat (map unat bytes))"
    using bytes_bounded by (rule atob_base64_encode)
  moreover have "map ucast (map of_nat (map unat bytes) :: jsstring) = bytes"
    using charCodeAt_fromCharCode by (simp add: comp_def map_idI)
  ultimately show ?thesis by (simp add: base64ToArrayBuffer_def)
qed

section \<open>The reference platform meets the assumptions on the cipher\<close>

lemma xor_fold_Cons: "xor_fold (x # xs) = x XOR xor_fold xs"
  by (simp add: xor_fold_def)

lemma xor_fold_append: "xor_fold (xs @ ys) = xor_fold xs XOR xor_fold ys"
  by (induction xs) (simp_all add: xor_fold_Cons xor_fold_def ac_simps)

lemma xor_fold_update:
  "j < length xs \<Longrightarrow> xor_fold (xs[j := xs ! j XOR m]) = xor_fold xs XOR m"
proof (induction xs arbitrary: j)
  case Nil
  then show ?case by simp
next
  case (Cons x xs)
  show ?case
  proof (cases j)
    case 0
    then show ?thesis by (simp add: xor_fold_Cons ac_simps)
  next
    case (Suc k)
    then have "k < length xs" using Cons.prems by simp
    then show ?thesis using Suc Cons.IH[of k] by (simp add: xor_fold_Cons ac_simps)
  qed
qed

lemma flip_mask_nonzero: "(push_bit (i mod 8) 1 :: byte) \<noteq> 0"
proof -
  have "i mod 8 < 8" by simp
  then have "i mod 8 \<in> {0, 1, 2, 3, 4, 5, 6, 7}" by auto
  then show ?thesis by (auto simp: push_bit_eq_mult)
qed

lemma xor_mask_neq:
  fixes x m :: byte
  assumes "m \<noteq> 0"
  shows "x XOR m \<noteq> x"
proof
  assume "x XOR m = x"
  then have "x XOR (x XOR m) = x XOR x" by simp
  moreover have "x XOR (x XOR m) = m" by (simp add: xor.assoc[symmetric])
  ultimately show False using assms by simp
qed

lemma ref_aead_correct: "aead_correct ref_platform"
  unfolding aead_correct_def
  by (auto simp: ref_platform_def ref_seal_def ref_open_def ref_tag_def Let_def comp_def
      bit.xor_self xor.assoc split: if_splits)

lemma ref_open_Inr:
  assumes "ref_open a key v sealed = Inr plain"
  shows "a = js ''AES-GCM''" "16 \<le> length sealed"
    "drop (length sealed - 16) sealed = ref_tag key v (take (length sealed - 16) sealed)"
  using assms by (auto simp: ref_open_def Let_def split: if_splits)

lemma ref_open_refuses:
  assumes "a = js ''AES-GCM''" "16 \<le> length sealed"
    "drop (length sealed - 16) sealed \<noteq> ref_tag key v (take (length sealed - 16) sealed)"
  shows "ref_open a key v sealed = Inl ref_operation_error"
  using assms by (simp add: ref_open_def Let_def)

lemma ref_detects_ct_flip:
  assumes "ref_open a key v sealed = Inr plain" and "i < 8 * length sealed"
  shows "ref_open a key v (flip_bit sealed i) = Inl ref_operation_error"
proof -
  let ?n = "length sealed - 16"
  let ?j = "i div 8"
  let ?m = "push_bit (i mod 8) 1 :: byte"
  note ok = ref_open_Inr[OF assms(1)]
  have j: "?j < length sealed" using assms(2) by (simp add: less_mult_imp_div_less mult.commute)
  have len: "length (flip_bit sealed i) = length sealed" by (simp add: flip_bit_def)
  have "drop ?n (flip_bit sealed i) \<noteq> ref_tag key v (take ?n (flip_bit sealed i))"
  proof (cases "?j < ?n")
    case True
    have tk: "take ?n (flip_bit sealed i) = (take ?n sealed)[?j := (take ?n sealed) ! ?j XOR ?m]"
      using True by (simp add: flip_bit_def take_update_swap)
    have dr: "drop ?n (flip_bit sealed i) = drop ?n sealed"
      using True by (simp add: flip_bit_def drop_update_cancel)
    have "xor_fold ((take ?n sealed)[?j := (take ?n sealed) ! ?j XOR ?m])
          = xor_fold (take ?n sealed) XOR ?m"
      by (rule xor_fold_update) (use True j in simp)
    then have "xor_fold (key @ v @ (take ?n sealed)[?j := (take ?n sealed) ! ?j XOR ?m])
          = xor_fold (key @ v @ take ?n sealed) XOR ?m"
      by (simp only: xor_fold_append xor.assoc)
    then have "hd (ref_tag key v (take ?n (flip_bit sealed i))) \<noteq> hd (ref_tag key v (take ?n sealed))"
      unfolding tk ref_tag_def using xor_mask_neq[OF flip_mask_nonzero] by simp
    then show ?thesis unfolding dr ok(3) by metis
  next
    case False
    then have ge: "?n \<le> ?j" by simp
    have tk: "take ?n (flip_bit sealed i) = take ?n sealed"
      using ge by (simp add: flip_bit_def)
    have "drop ?n (flip_bit sealed i) ! (?j - ?n) = sealed ! ?j XOR ?m"
      using ge j by (simp add: flip_bit_def)
    moreover have "drop ?n sealed ! (?j - ?n) = sealed ! ?j"
      using ge j by simp
    ultimately have "drop ?n (flip_bit sealed i) \<noteq> drop ?n sealed"
      using xor_mask_neq[OF flip_mask_nonzero, of "sealed ! ?j" i] by metis
    then show ?thesis unfolding tk ok(3)[symmetric] .
  qed
  then show ?thesis using ok(1,2) len by (intro ref_open_refuses) simp_all
qed

lemma ref_detects_iv_flip:
  assumes "ref_open a key v sealed = Inr plain" and "i < 8 * length v"
  shows "ref_open a key (flip_bit v i) sealed = Inl ref_operation_error"
proof -
  let ?n = "length sealed - 16"
  let ?j = "i div 8"
  let ?m = "push_bit (i mod 8) 1 :: byte"
  note ok = ref_open_Inr[OF assms(1)]
  have j: "?j < length v" using assms(2) by (simp add: less_mult_imp_div_less mult.commute)
  have "xor_fold (flip_bit v i) = xor_fold v XOR ?m"
    unfolding flip_bit_def using j by (rule xor_fold_update)
  then have "xor_fold (key @ flip_bit v i @ take ?n sealed) = xor_fold (key @ v @ take ?n sealed) XOR ?m"
    by (simp only: xor_fold_append) (simp add: ac_simps)
  then have "hd (ref_tag key (flip_bit v i) (take ?n sealed)) \<noteq> hd (ref_tag key v (take ?n sealed))"
    unfolding ref_tag_def using xor_mask_neq[OF flip_mask_nonzero] by simp
  then have "drop ?n sealed \<noteq> ref_tag key (flip_bit v i) (take ?n sealed)"
    unfolding ok(3) by metis
  then show ?thesis using ok(1,2) by (intro ref_open_refuses) simp_all
qed

lemma ref_detects_bit_flips: "detects_bit_flips ref_platform ref_operation_error"
  unfolding detects_bit_flips_def
  using ref_detects_ct_flip ref_detects_iv_flip by (simp add: ref_platform_def)

section \<open>Encryption and decryption\<close>

lemma getRandomValues_length: "length (fst (getRandomValues pf n pos)) = n"
  by (simp add: getRandomValues_def)

lemma generate_positions:
  "generateSalt pf 16 pos = (salt_bytes pf pos, pos + 16)"
  "generateIV pf (pos + 16) = (iv_bytes pf pos, pos + 28)"
  by (simp_all add: salt_bytes_def iv_bytes_def generateSalt_def generateIV_def getRandomValues_def)

lemma encrypt_unfold:
  assumes "crypto_supported pf" and "\<not> passphrase_empty K"
  shows "encrypt pf pos P K opts =
    (case deriveKey pf K (salt_bytes pf pos) (resolved_iterations opts) of
       Inl e \<Rightarrow> (Inl e, pos + 28)
     | Inr key \<Rightarrow>
         (case subtle_encrypt pf (js ''AES-GCM'') key (iv_bytes pf pos) (plaintext_bytes P) of
            Inl e \<Rightarrow> (Inl e, pos + 28)
          | Inr sealed \<Rightarrow>
              (Inr \<lparr>alg = js ''AES-GCM'', kdf = js ''PBKDF2'', salt = base64_of (salt_bytes pf pos),
                    iv = base64_of (iv_bytes pf pos), iterations = resolved_iterations opts,
                    ct = base64_of sealed\<rparr>, pos + 28)))"
proof -
  have alg: "(case opt_algorithm opts of None \<Rightarrow> js ''AES-GCM'' | Some u \<Rightarrow> js ''AES-GCM'') = js ''AES-GCM''"
    by (cases "opt_algorithm opts") simp_all
  show ?thesis
    unfolding encrypt_def isCryptoSupported_def Let_def alg generate_positions
      resolved_iterations_def[symmetric] arrayBufferToBase64_eq base64_of_def[symmetric]
    using assms by (simp add: generate_positions split: sum.splits)
qed

lemma base64ToArrayBuffer_of: "base64ToArrayBuffer pf (base64_of bytes) = Inr bytes"
  unfolding base64_of_def by (rule base64ToArrayBuffer_encode)

lemma decrypt_try_envelope:
  "decrypt_try pf \<lparr>alg = a, kdf = k, salt = base64_of sb, iv = base64_of vb, iterations = n,
                    ct = base64_of cb\<rparr> K =
    (case deriveKey pf K sb n of
       Inl e \<Rightarrow> Inl e
     | Inr key \<Rightarrow>
         (case subtle_decrypt pf a key vb cb of
            Inl e \<Rightarrow> Inl e
          | Inr plain \<Rightarrow> Inr (TextDecoder_decode plain)))"
  by (simp add: decrypt_try_def base64ToArrayBuffer_of cong: sum.case_cong)

lemma encrypt_Inr_cases:
  assumes "fst (encrypt pf pos P K opts) = Inr env"
  obtains key sealed where
    "crypto_supported pf" "\<not> passphrase_empty K"
    "deriveKey pf K (salt_bytes pf pos) (resolved_iterations opts) = Inr key"
    "subtle_encrypt pf (js ''AES-GCM'') key (iv_bytes pf pos) (plaintext_bytes P) = Inr sealed"
    "env = \<lparr>alg = js ''AES-GCM'', kdf = js ''PBKDF2'', salt = base64_of (salt_bytes pf pos),
            iv = base64_of (iv_bytes pf pos), iterations = resolved_iterations opts,
            ct = base64_of sealed\<rparr>"
proof -
  have sup: "crypto_supported pf"
    using assms by (cases "crypto_supported pf") (simp_all add: encrypt_def isCryptoSupported_def)
  have ne: "\<not> passphrase_empty K"
    using assms sup by (cases "passphrase_empty K") (simp_all add: encrypt_def isCryptoSupported_def)
  show ?thesis
    using assms that sup ne unfolding encrypt_unfold[OF sup ne]
    by (auto split: sum.splits)
qed

lemma roundtrip_core:
  assumes "aead_correct pf" and "fst (encrypt pf pos P K opts) = Inr env"
  shows "decrypt pf env K = Inr (TextDecoder_decode (plaintext_bytes P))"
proof -
  from assms(2) obtain key sealed where
    sup: "crypto_supported pf" and ne: "\<not> passphrase_empty K"
    and dk: "deriveKey pf K (salt_bytes pf pos) (resolved_iterations opts) = Inr key"
    and enc: "subtle_encrypt pf (js ''AES-GCM'') key (iv_bytes pf pos) (plaintext_bytes P) = Inr sealed"
    and env: "env = \<lparr>alg = js ''AES-GCM'', kdf = js ''PBKDF2'', salt = base64_of (salt_bytes pf pos),
            iv = base64_of (iv_bytes pf pos), iterations = resolved_iterations opts,
            ct = base64_of sealed\<rparr>"
    by (rule encrypt_Inr_cases)
  have "subtle_decrypt pf (js ''AES-GCM'') key (iv_bytes pf pos) sealed = Inr (plaintext_bytes P)"
    using assms(1) enc unfolding aead_correct_def by blast
  then have "decrypt_try pf env K = Inr (TextDecoder_decode (plaintext_bytes P))"
    unfolding env decrypt_try_envelope by (simp add: dk)
  then show ?thesis using sup ne by (simp add: decrypt_def isCryptoSupported_def)
qed

section \<open>Properties of the history store\<close>


















end
